theory Spec2Isabelle
  imports Main "HOL-Library.AList" "HOL-Library.Sublist"
begin

section \<open>Trycycler's command-line driver (\<open>trycycler/__main__.py\<close>)\<close>

text \<open>
  The driver validates its inputs, loads one contig per FASTA file, calls the pipeline
  stages and writes two FASTA files. Only the driver is modelled from source; everything
  it imports from the rest of the package (the FASTA/FASTQ readers, the pipeline stages,
  \<open>settings.MAX_INPUT_CONTIGS\<close>) is a field of the record \<open>externals\<close>, so every
  theorem holds for whatever those functions compute.

  \<^item> \<open>sys.exit(msg)\<close> is the failure \<open>SysExit msg\<close>; an exception nobody catches is
    \<open>Uncaught e\<close>. Either one ends the process with a non-zero status.
  \<^item> A Python \<open>dict\<close> is an association list in insertion order; \<open>d[k] = v\<close> is
    \<open>AList.update k v d\<close> (an existing key keeps its place, a new one goes last).
  \<^item> The file system is a map from paths (lists of components below the working
    directory) to nodes; the empty path is the working directory itself.
  \<^item> \<open>log\<close>, \<open>section_header\<close> and \<open>explanation\<close> only print and are left out.
\<close>

subsection \<open>Failures\<close>

datatype exn =
    AssertionError | IndexError
  | FileExistsError | FileNotFoundError | NotADirectoryError | IsADirectoryError
  | OtherError string

datatype failure = SysExit string | Uncaught exn

subsection \<open>Python built-ins the driver uses\<close>

definition ascii_uppercase :: string where
  "ascii_uppercase = ''ABCDEFGHIJKLMNOPQRSTUVWXYZ''"

text \<open>\<open>string.ascii_uppercase[i]\<close> for the non-negative \<open>i\<close> of \<open>enumerate\<close>: a
  one-character string, or IndexError from 26 on.\<close>

definition ascii_uppercase_at :: "nat \<Rightarrow> failure + string" where
  "ascii_uppercase_at i =
     (if i < length ascii_uppercase then Inr [ascii_uppercase ! i]
      else Inl (Uncaught IndexError))"

text \<open>\<open>str(n)\<close> for an integer, as the f-string \<open>{settings.MAX_INPUT_CONTIGS}\<close> formats it.\<close>

function str_nat :: "nat \<Rightarrow> string" where
  "str_nat n =
     (if n < 10 then [''0123456789'' ! n]
      else str_nat (n div 10) @ [''0123456789'' ! (n mod 10)])"
  by pat_completeness auto
termination
  by (relation "measure id") auto

definition str_int :: "int \<Rightarrow> string" where
  "str_int i = (if i < 0 then CHR ''-'' # str_nat (nat (- i)) else str_nat (nat i))"

definition newline :: char where
  "newline = CHR 0x0A"

subsection \<open>The file system\<close>

type_synonym path = "string list"

text \<open>What a path names, symbolic links followed: a regular file with its text, a
  directory, something that exists but is neither (\<open>Special\<close>: a FIFO, a socket, a
  device), or a symbolic link whose target is missing (\<open>DanglingLink\<close>). For the last
  two \<open>is_file()\<close> and \<open>is_dir()\<close> are both false; for a dangling link \<open>exists()\<close>
  is false as well, although the name is taken.\<close>

datatype node = RegularFile string | Directory | Special | DanglingLink

type_synonym filesystem = "path \<Rightarrow> node option"

text \<open>\<open>str(path)\<close>: the components joined by a slash.\<close>

fun str_path :: "path \<Rightarrow> string" where
  "str_path [] = ''.''"
| "str_path [c] = c"
| "str_path (c # cs) = c @ ''/'' @ str_path cs"

definition stat :: "filesystem \<Rightarrow> path \<Rightarrow> node option" where
  "stat files p = (if p = [] then Some Directory else files p)"

definition is_file :: "filesystem \<Rightarrow> path \<Rightarrow> bool" where
  "is_file files p = (case stat files p of Some (RegularFile c) \<Rightarrow> True | _ \<Rightarrow> False)"

definition is_dir :: "filesystem \<Rightarrow> path \<Rightarrow> bool" where
  "is_dir files p = (case stat files p of Some Directory \<Rightarrow> True | _ \<Rightarrow> False)"

text \<open>The proper ancestors of a path below the working directory, outermost first:
  \<open>a/b/c\<close> has \<open>a\<close> and \<open>a/b\<close>.\<close>

definition ancestors :: "path \<Rightarrow> path list" where
  "ancestors p = butlast (tl (prefixes p))"

text \<open>\<open>Path.mkdir(parents=True)\<close>. It raises FileExistsError when the name is taken,
  whatever it names. Of the ancestors, outermost first, a missing one is created and a
  directory is passed; a regular file, FIFO or device makes the operating system refuse
  with NotADirectoryError, and at a dangling link \<open>mkdir\<close> finds the name taken by
  something that is not a directory: FileExistsError. After a failure nothing has been
  created; at last the path itself becomes a directory.\<close>

fun make_parents :: "filesystem \<Rightarrow> path list \<Rightarrow> failure + filesystem" where
  "make_parents files [] = Inr files"
| "make_parents files (q # qs) =
     (case stat files q of
        None \<Rightarrow> make_parents (files(q \<mapsto> Directory)) qs
      | Some Directory \<Rightarrow> make_parents files qs
      | Some (RegularFile c) \<Rightarrow> Inl (Uncaught NotADirectoryError)
      | Some Special \<Rightarrow> Inl (Uncaught NotADirectoryError)
      | Some DanglingLink \<Rightarrow> Inl (Uncaught FileExistsError))"

definition mkdir_parents :: "filesystem \<Rightarrow> path \<Rightarrow> failure + filesystem" where
  "mkdir_parents files p =
     (if stat files p \<noteq> None then Inl (Uncaught FileExistsError)
      else case make_parents files (ancestors p) of
             Inl e \<Rightarrow> Inl e
           | Inr files' \<Rightarrow> Inr (files'(p \<mapsto> Directory)))"

text \<open>\<open>open(filename, 'wt')\<close>: the file is created or truncated; it fails on a directory
  and when the containing directory is missing or is not a directory. Through a
  dangling link the file is created at the link's target, so the path names a regular
  file afterwards. A FIFO or device at the path is not told apart from a regular file
  here: what is written to it is kept as its text.\<close>

definition open_wt :: "filesystem \<Rightarrow> path \<Rightarrow> failure + filesystem" where
  "open_wt files p =
     (if is_dir files p then Inl (Uncaught IsADirectoryError)
      else case stat files (butlast p) of
             Some Directory \<Rightarrow> Inr (files(p \<mapsto> RegularFile []))
           | Some (RegularFile c) \<Rightarrow> Inl (Uncaught NotADirectoryError)
           | Some Special \<Rightarrow> Inl (Uncaught NotADirectoryError)
           | _ \<Rightarrow> Inl (Uncaught FileNotFoundError))"

text \<open>\<open>fasta.write(s)\<close> on the open file appends \<open>s\<close>.\<close>

definition file_write :: "path \<Rightarrow> string \<Rightarrow> filesystem \<Rightarrow> filesystem" where
  "file_write p s files =
     (case files p of
        Some (RegularFile c) \<Rightarrow> files(p \<mapsto> RegularFile (c @ s))
      | _ \<Rightarrow> files)"

subsection \<open>What the driver imports\<close>

type_synonym seqs = "(string \<times> string) list"

text \<open>
  \<open>'r\<close> is the state of Python's global random generator, \<open>'s\<close> the starting sequence,
  \<open>'p\<close> the per-base scores, \<open>'a\<close> the pairwise alignments. The readers are functions of
  the file name (the input files do not change during a run). A pipeline stage is a
  function of its arguments and the generator's state, and returns the new state; it
  does not touch the output directory.
\<close>

record ('r, 's, 'p, 'a) externals =
  MAX_INPUT_CONTIGS :: int
  get_sequence_file_type :: "string \<Rightarrow> failure + string"
  load_fasta :: "string \<Rightarrow> failure + (string \<times> string) list"
  get_fastq_stats :: "string \<Rightarrow> failure + (nat \<times> nat \<times> nat)"
  random_seed :: "int \<Rightarrow> 'r"
  initial_sanity_check :: "seqs \<Rightarrow> 'r \<Rightarrow> failure + (unit \<times> 'r)"
  get_starting_seq :: "seqs \<Rightarrow> int \<Rightarrow> 'r \<Rightarrow> failure + (('s \<times> seqs) \<times> 'r)"
  circularise :: "seqs \<Rightarrow> string \<Rightarrow> int \<Rightarrow> 'r \<Rightarrow> failure + (seqs \<times> 'r)"
  rotate_to_starting_seq :: "seqs \<Rightarrow> 's \<Rightarrow> 'r \<Rightarrow> failure + (seqs \<times> 'r)"
  get_per_base_scores :: "seqs \<Rightarrow> string \<Rightarrow> bool \<Rightarrow> 'r \<Rightarrow> failure + ('p \<times> 'r)"
  get_pairwise_alignments :: "seqs \<Rightarrow> 'r \<Rightarrow> failure + ('a \<times> 'r)"
  get_consensus_seq :: "seqs \<Rightarrow> 'p \<Rightarrow> 'a \<Rightarrow> 'r \<Rightarrow> failure + (seqs \<times> 'r)"

subsection \<open>Input validation\<close>

definition check_input_reads ::
  "('r, 's, 'p, 'a) externals \<Rightarrow> string \<Rightarrow> failure + unit" where
  "check_input_reads ext filename =
     (case get_sequence_file_type ext filename of
        Inl e \<Rightarrow> Inl e
      | Inr read_type \<Rightarrow>
          if read_type \<noteq> ''FASTQ''
          then Inl (SysExit (''Error: input reads ('' @ filename @ '') are not in FASTQ format''))
          else (case get_fastq_stats ext filename of
                  Inl e \<Rightarrow> Inl e
                | Inr stats \<Rightarrow> Inr ()))"

text \<open>The body of the \<open>for i, f in enumerate(filenames)\<close> loop of \<open>check_input_contigs\<close>,
  with the loop's state (\<open>i\<close> and the set \<open>contig_names\<close>) as arguments.\<close>

fun check_contigs_loop ::
  "('r, 's, 'p, 'a) externals \<Rightarrow> nat \<Rightarrow> string list \<Rightarrow> string set \<Rightarrow> failure + unit" where
  "check_contigs_loop ext i [] contig_names = Inr ()"
| "check_contigs_loop ext i (f # rest) contig_names =
     (case get_sequence_file_type ext f of
        Inl e \<Rightarrow> Inl e
      | Inr contig_type \<Rightarrow>
          if contig_type \<noteq> ''FASTA''
          then Inl (SysExit (''Error: input contig file ('' @ f @ '') is not in FASTA format''))
          else (case load_fasta ext f of
                  Inl e \<Rightarrow> Inl e
                | Inr seqs \<Rightarrow>
                    if length seqs = 0
                    then Inl (SysExit (''Error: input contig file ('' @ f @ '') contains no sequences''))
                    else if length seqs > 1
                    then Inl (SysExit (''Error: input contig file ('' @ f @ '') contains multiple sequences''))
                    else let contig_name = fst (seqs ! 0) in
                      if contig_name \<in> contig_names
                      then Inl (SysExit (''Error: duplicate contig name: '' @ contig_name))
                      else (case ascii_uppercase_at i of
                              Inl e \<Rightarrow> Inl e
                            | Inr letter \<Rightarrow>
                                check_contigs_loop ext (Suc i) rest
                                  (insert contig_name contig_names))))"

definition check_input_contigs ::
  "('r, 's, 'p, 'a) externals \<Rightarrow> string list \<Rightarrow> failure + unit" where
  "check_input_contigs ext filenames =
     (if int (length filenames) < 2
      then Inl (SysExit ''Error: two or more input contigs are required'')
      else if int (length filenames) > MAX_INPUT_CONTIGS ext
      then Inl (SysExit (''Error: you cannot have more than ''
                          @ str_int (MAX_INPUT_CONTIGS ext) @ '' input contigs''))
      else check_contigs_loop ext 0 filenames {})"

definition check_output_directory :: "path \<Rightarrow> filesystem \<Rightarrow> failure + filesystem" where
  "check_output_directory directory files =
     (if is_file files directory
      then Inl (SysExit (''Error: output directory ('' @ str_path directory
                          @ '') already exists as a file''))
      else if is_dir files directory then Inr files
      else mkdir_parents files directory)"

definition check_required_software :: "failure + unit" where
  "check_required_software = Inr ()"

subsection \<open>Loading and saving\<close>

fun load_contigs_loop ::
  "('r, 's, 'p, 'a) externals \<Rightarrow> nat \<Rightarrow> string list \<Rightarrow> seqs \<Rightarrow> failure + seqs" where
  "load_contigs_loop ext i [] contig_seqs = Inr contig_seqs"
| "load_contigs_loop ext i (f # rest) contig_seqs =
     (case ascii_uppercase_at i of
        Inl e \<Rightarrow> Inl e
      | Inr letter \<Rightarrow>
          (case load_fasta ext f of
             Inl e \<Rightarrow> Inl e
           | Inr seqs \<Rightarrow>
               if length seqs \<noteq> 1 then Inl (Uncaught AssertionError)
               else load_contigs_loop ext (Suc i) rest
                      (AList.update letter (snd (seqs ! 0)) contig_seqs)))"

definition load_contig_sequences ::
  "('r, 's, 'p, 'a) externals \<Rightarrow> string list \<Rightarrow> failure + seqs" where
  "load_contig_sequences ext filenames = load_contigs_loop ext 0 filenames []"

text \<open>The loop of \<open>save_seqs_to_fasta\<close>: two \<open>write\<close> calls for each item of the dict.\<close>

fun write_records :: "path \<Rightarrow> seqs \<Rightarrow> filesystem \<Rightarrow> filesystem" where
  "write_records p [] files = files"
| "write_records p ((name, seq) # rest) files =
     write_records p rest
       (file_write p (seq @ [newline]) (file_write p (''>'' @ name @ [newline]) files))"

definition save_seqs_to_fasta :: "seqs \<Rightarrow> path \<Rightarrow> filesystem \<Rightarrow> failure + filesystem" where
  "save_seqs_to_fasta seqs filename files =
     (case open_wt files filename of
        Inl e \<Rightarrow> Inl e
      | Inr files' \<Rightarrow> Inr (write_records filename seqs files'))"

subsection \<open>The run: generator state, file system and a log of what was done\<close>

datatype stage =
    InitialSanityCheck | GetStartingSeq | Circularise | RotateToStartingSeq
  | GetPerBaseScores | GetPairwiseAlignments | GetConsensusSeq

text \<open>\<open>RandomSeed n\<close>: \<open>random.seed(n)\<close> was called; \<open>Called st s\<close>: the stage \<open>st\<close>
  was called with the contig set \<open>s\<close>; \<open>Wrote p s\<close>: \<open>save_seqs_to_fasta\<close> opened the
  file \<open>p\<close> and wrote the sequences \<open>s\<close> to it.\<close>

datatype event = RandomSeed int | Called stage seqs | Wrote path seqs

record 'r world =
  rng :: 'r
  files :: filesystem
  trace :: "event list"

type_synonym ('x, 'r) prog = "'r world \<Rightarrow> (failure + 'x) \<times> 'r world"

text \<open>Sequencing: a failure ends the run in the state it was raised in.\<close>

definition and_then :: "('x, 'r) prog \<Rightarrow> ('x \<Rightarrow> ('y, 'r) prog) \<Rightarrow> ('y, 'r) prog" where
  "and_then m k w = (case m w of (Inl e, w') \<Rightarrow> (Inl e, w') | (Inr x, w') \<Rightarrow> k x w')"

definition reading :: "failure + 'x \<Rightarrow> ('x, 'r) prog" where
  "reading v w = (v, w)"

definition on_files :: "(filesystem \<Rightarrow> failure + filesystem) \<Rightarrow> (unit, 'r) prog" where
  "on_files f w =
     (case f (files w) of
        Inl e \<Rightarrow> (Inl e, w)
      | Inr files' \<Rightarrow> (Inr (), w\<lparr>files := files'\<rparr>))"

definition call_stage ::
  "stage \<Rightarrow> seqs \<Rightarrow> ('r \<Rightarrow> failure + ('x \<times> 'r)) \<Rightarrow> ('x, 'r) prog" where
  "call_stage st s f w =
     (case f (rng w) of
        Inl e \<Rightarrow> (Inl e, w\<lparr>trace := trace w @ [Called st s]\<rparr>)
      | Inr (x, r') \<Rightarrow> (Inr x, w\<lparr>rng := r', trace := trace w @ [Called st s]\<rparr>))"

definition seed_random :: "('r, 's, 'p, 'a) externals \<Rightarrow> int \<Rightarrow> (unit, 'r) prog" where
  "seed_random ext n w =
     (Inr (), w\<lparr>rng := random_seed ext n, trace := trace w @ [RandomSeed n]\<rparr>)"

definition save_seqs :: "seqs \<Rightarrow> path \<Rightarrow> (unit, 'r) prog" where
  "save_seqs seqs filename w =
     (case save_seqs_to_fasta seqs filename (files w) of
        Inl e \<Rightarrow> (Inl e, w)
      | Inr files' \<Rightarrow> (Inr (), w\<lparr>files := files', trace := trace w @ [Wrote filename seqs]\<rparr>))"

subsection \<open>The driver\<close>

text \<open>The parsed command line. \<open>get_arguments\<close> sets \<open>args.circular = not args.not_circular\<close>;
  \<open>--not_circular\<close> is a \<open>store_true\<close> flag, so \<open>circular\<close> is true unless it is given.\<close>

record arguments =
  contigs :: "string list"
  reads :: string
  out_dir :: path
  threads :: int
  not_circular :: bool

definition circular :: "arguments \<Rightarrow> bool" where
  "circular args = (\<not> not_circular args)"

definition check_inputs_and_requirements ::
  "('r, 's, 'p, 'a) externals \<Rightarrow> arguments \<Rightarrow> (unit, 'r) prog" where
  "check_inputs_and_requirements ext args =
     and_then (reading (check_input_reads ext (reads args))) (\<lambda>u.
     and_then (reading (check_input_contigs ext (contigs args))) (\<lambda>u.
     and_then (on_files (check_output_directory (out_dir args))) (\<lambda>u.
     reading check_required_software)))"

definition main :: "('r, 's, 'p, 'a) externals \<Rightarrow> arguments \<Rightarrow> (unit, 'r) prog" where
  "main ext args =
     and_then (seed_random ext 0) (\<lambda>u.
     and_then (check_inputs_and_requirements ext args) (\<lambda>u.
     and_then (reading (load_contig_sequences ext (contigs args))) (\<lambda>seqs.
     and_then (call_stage InitialSanityCheck seqs (initial_sanity_check ext seqs)) (\<lambda>u.
     and_then (call_stage GetStartingSeq seqs (get_starting_seq ext seqs (threads args)))
       (\<lambda>(starting_seq, seqs).
     and_then
       (if circular args
        then and_then (call_stage Circularise seqs
                         (circularise ext seqs (reads args) (threads args))) (\<lambda>seqs.
             call_stage RotateToStartingSeq seqs
               (rotate_to_starting_seq ext seqs starting_seq))
        else reading (Inr seqs)) (\<lambda>seqs.
     and_then (save_seqs seqs (out_dir args @ [''01_all_seqs.fasta''])) (\<lambda>u.
     and_then (call_stage GetPerBaseScores seqs
                 (get_per_base_scores ext seqs (reads args) (circular args)))
       (\<lambda>per_base_scores.
     and_then (call_stage GetPairwiseAlignments seqs (get_pairwise_alignments ext seqs))
       (\<lambda>pairwise_alignments.
     and_then (call_stage GetConsensusSeq seqs
                 (get_consensus_seq ext seqs per_base_scores pairwise_alignments))
       (\<lambda>consensus_seq.
     save_seqs consensus_seq (out_dir args @ [''02_consensus.fasta''])))))))))))"

subsection \<open>What a run adds to the log\<close>

text \<open>The world after \<open>random.seed(0)\<close>, and the events a run of \<open>main\<close> appends.\<close>

definition seeded :: "('r, 's, 'p, 'a) externals \<Rightarrow> 'r world \<Rightarrow> 'r world" where
  "seeded ext w = w\<lparr>rng := random_seed ext 0, trace := trace w @ [RandomSeed 0]\<rparr>"

definition new_events ::
  "('r, 's, 'p, 'a) externals \<Rightarrow> arguments \<Rightarrow> 'r world \<Rightarrow> event list" where
  "new_events ext args w = drop (length (trace w)) (trace (snd (main ext args w)))"

text \<open>The same events read off stage by stage (shown equal to \<open>new_events\<close> below): each
  stage is logged when it is called, and the log ends where a stage fails.\<close>

definition output_events ::
  "('r, 's, 'p, 'a) externals \<Rightarrow> arguments \<Rightarrow> filesystem \<Rightarrow> seqs \<Rightarrow> 'r \<Rightarrow> event list" where
  "output_events ext args fs seqs r =
     (case save_seqs_to_fasta seqs (out_dir args @ [''01_all_seqs.fasta'']) fs of
        Inl e \<Rightarrow> []
      | Inr fs1 \<Rightarrow>
          Wrote (out_dir args @ [''01_all_seqs.fasta'']) seqs # Called GetPerBaseScores seqs #
          (case get_per_base_scores ext seqs (reads args) (circular args) r of
             Inl e \<Rightarrow> []
           | Inr (per_base_scores, r1) \<Rightarrow>
               Called GetPairwiseAlignments seqs #
               (case get_pairwise_alignments ext seqs r1 of
                  Inl e \<Rightarrow> []
                | Inr (pairwise_alignments, r2) \<Rightarrow>
                    Called GetConsensusSeq seqs #
                    (case get_consensus_seq ext seqs per_base_scores pairwise_alignments r2 of
                       Inl e \<Rightarrow> []
                     | Inr (consensus_seq, r3) \<Rightarrow>
                         (case save_seqs_to_fasta consensus_seq
                                 (out_dir args @ [''02_consensus.fasta'']) fs1 of
                            Inl e \<Rightarrow> []
                          | Inr fs2 \<Rightarrow>
                              [Wrote (out_dir args @ [''02_consensus.fasta'']) consensus_seq])))))"

definition run_events ::
  "('r, 's, 'p, 'a) externals \<Rightarrow> arguments \<Rightarrow> 'r world \<Rightarrow> event list" where
  "run_events ext args w =
     RandomSeed 0 #
     (case check_inputs_and_requirements ext args (seeded ext w) of
        (Inl e, w1) \<Rightarrow> []
      | (Inr u, w1) \<Rightarrow>
          (case load_contig_sequences ext (contigs args) of
             Inl e \<Rightarrow> []
           | Inr loaded \<Rightarrow>
               Called InitialSanityCheck loaded #
               (case initial_sanity_check ext loaded (random_seed ext 0) of
                  Inl e \<Rightarrow> []
                | Inr (u, r1) \<Rightarrow>
                    Called GetStartingSeq loaded #
                    (case get_starting_seq ext loaded (threads args) r1 of
                       Inl e \<Rightarrow> []
                     | Inr ((starting_seq, seqs1), r2) \<Rightarrow>
                         if circular args
                         then Called Circularise seqs1 #
                              (case circularise ext seqs1 (reads args) (threads args) r2 of
                                 Inl e \<Rightarrow> []
                               | Inr (seqs2, r3) \<Rightarrow>
                                   Called RotateToStartingSeq seqs2 #
                                   (case rotate_to_starting_seq ext seqs2 starting_seq r3 of
                                      Inl e \<Rightarrow> []
                                    | Inr (seqs3, r4) \<Rightarrow>
                                        output_events ext args (files w1) seqs3 r4))
                         else output_events ext args (files w1) seqs1 r2))))"

subsection \<open>Lines of a text\<close>

text \<open>The lines of a text whose lines end in a newline, to state what "one line" is in
  the written file: \<open>cur\<close> holds the characters of the line being read.\<close>

fun lines_from :: "string \<Rightarrow> string \<Rightarrow> string list" where
  "lines_from cur [] = (if cur = [] then [] else [cur])"
| "lines_from cur (c # cs) =
     (if c = newline then cur # lines_from [] cs else lines_from (cur @ [c]) cs)"

definition text_lines :: "string \<Rightarrow> string list" where
  "text_lines s = lines_from [] s"

text \<open>The text \<open>save_seqs_to_fasta\<close> is to produce, record by record.\<close>

definition fasta_text :: "seqs \<Rightarrow> string" where
  "fasta_text seqs =
     concat (map (\<lambda>(name, seq). ''>'' @ name @ [newline] @ seq @ [newline]) seqs)"

subsection \<open>The contig set a validated list of files loads to\<close>

text \<open>File number \<open>i\<close>, \<open>i + 1\<close>, ... under its letter, with the sequence of the file's first
  record: what \<open>load_contig_sequences\<close> is shown to return.\<close>

fun labelled :: "('r, 's, 'p, 'a) externals \<Rightarrow> nat \<Rightarrow> string list \<Rightarrow> seqs" where
  "labelled ext i [] = []"
| "labelled ext i (f # rest) =
     ([ascii_uppercase ! i], snd (hd (projr (load_fasta ext f)))) # labelled ext (Suc i) rest"


subsection \<open>A small installation to run the driver on\<close>

text \<open>
  Readers that know five files, and stages simple enough to evaluate: the generator's
  state is a number, \<open>get_starting_seq\<close> picks the first contig and rotates every
  sequence by one base, \<open>circularise\<close> drops the last base, the consensus is the first
  sequence.
\<close>

definition example_ext :: "(nat, string, nat list, unit) externals" where
  "example_ext =
     \<lparr> MAX_INPUT_CONTIGS = 26,
       get_sequence_file_type =
         (\<lambda>f. Inr (if f = ''reads.fastq'' then ''FASTQ''
                   else if f = ''notes.txt'' then ''unknown'' else ''FASTA'')),
       load_fasta =
         (\<lambda>f. Inr (if f = ''a.fasta'' then [(''contig_1'', ''ACGT'')]
                   else if f = ''b.fasta'' then [(''contig_2'', ''CGTA'')]
                   else if f = ''dup.fasta'' then [(''contig_1'', ''GGCC'')]
                   else if f = ''two.fasta'' then [(''x'', ''AC''), (''y'', ''GT'')]
                   else [])),
       get_fastq_stats = (\<lambda>f. Inr (1, 4, 4)),
       random_seed = (\<lambda>n. nat n),
       initial_sanity_check = (\<lambda>s r. Inr ((), r)),
       get_starting_seq =
         (\<lambda>s t r. case s of
                     [] \<Rightarrow> Inl (Uncaught (OtherError ''no contigs''))
                   | (name, seq) # rest \<Rightarrow>
                       Inr ((name, map (\<lambda>(n, q). (n, rotate1 q)) s), Suc r)),
       circularise = (\<lambda>s f t r. Inr (map (\<lambda>(n, q). (n, butlast q)) s, r)),
       rotate_to_starting_seq = (\<lambda>s st r. Inr (s, r)),
       get_per_base_scores = (\<lambda>s f c r. Inr (map (\<lambda>(n, q). length q) s, r)),
       get_pairwise_alignments = (\<lambda>s r. Inr ((), r)),
       get_consensus_seq =
         (\<lambda>s p a r. Inr (case s of [] \<Rightarrow> [] | (n, q) # rest \<Rightarrow> [(''consensus'', q)], r)) \<rparr>"

definition example_files :: filesystem where
  "example_files = Map.empty([''results''] \<mapsto> Directory, [''notes''] \<mapsto> RegularFile ''x'')"

text \<open>The same directory with a FIFO and a dangling link in it.\<close>

definition example_nodes :: filesystem where
  "example_nodes = example_files([''pipe''] \<mapsto> Special, [''lost''] \<mapsto> DanglingLink)"

definition example_args :: arguments where
  "example_args =
     \<lparr> contigs = [''a.fasta'', ''b.fasta''], reads = ''reads.fastq'',
       out_dir = [''out''], threads = 4, not_circular = False \<rparr>"

definition example_linear :: arguments where
  "example_linear = example_args\<lparr>not_circular := True\<rparr>"

definition example_world :: "nat world" where
  "example_world = \<lparr> rng = 7, files = Map.empty, trace = [] \<rparr>"

section \<open>Properties\<close>

subsection \<open>Letters\<close>

lemma update_fresh: "k \<notin> fst ` set al \<Longrightarrow> AList.update k v al = al @ [(k, v)]"
  by (induction al) auto

lemma distinct_upper: "distinct ascii_uppercase"
  by (simp add: ascii_uppercase_def)

lemma length_upper: "length ascii_uppercase = 26"
  by (simp add: ascii_uppercase_def)

lemma upper_at_Inr: "ascii_uppercase_at i = Inr l \<longleftrightarrow> i < 26 \<and> l = [ascii_uppercase ! i]"
  by (auto simp: ascii_uppercase_at_def length_upper)

lemma letter_inj:
  "i < 26 \<Longrightarrow> j < 26 \<Longrightarrow> ascii_uppercase ! i = ascii_uppercase ! j \<Longrightarrow> i = j"
  using distinct_upper by (simp add: nth_eq_iff_index_eq length_upper)

subsection \<open>What a validation that succeeds has established\<close>

lemma check_loop_Cons_ok:
  assumes "check_contigs_loop ext i (f # rest) names = Inr ()"
  shows "\<exists>name seq. get_sequence_file_type ext f = Inr ''FASTA'' \<and>
           load_fasta ext f = Inr [(name, seq)] \<and> name \<notin> names \<and> i < 26 \<and>
           check_contigs_loop ext (Suc i) rest (insert name names) = Inr ()"
proof -
  from assms obtain t where t: "get_sequence_file_type ext f = Inr t"
    by (cases "get_sequence_file_type ext f") auto
  with assms have fasta: "t = ''FASTA''"
    by (auto split: if_splits)
  from assms t fasta obtain seqs where l: "load_fasta ext f = Inr seqs"
    by (cases "load_fasta ext f") auto
  from assms t fasta l have n: "length seqs = 1"
    by (auto split: if_splits) (metis Suc_lessI length_greater_0_conv)
  then obtain name seq where s: "seqs = [(name, seq)]"
    by (cases seqs) auto
  from assms t fasta l s show ?thesis
    by (auto simp: upper_at_Inr split: if_splits sum.splits)
qed

lemma check_loop_ok:
  "check_contigs_loop ext i fs names = Inr () \<Longrightarrow>
     (fs \<noteq> [] \<longrightarrow> i + length fs \<le> 26) \<and>
     (\<forall>f \<in> set fs. get_sequence_file_type ext f = Inr ''FASTA'' \<and>
                     (\<exists>name seq. load_fasta ext f = Inr [(name, seq)]))"
proof (induction fs arbitrary: i names)
  case Nil
  then show ?case by simp
next
  case (Cons f rest)
  from check_loop_Cons_ok[OF Cons.prems] obtain name seq where
    t: "get_sequence_file_type ext f = Inr ''FASTA''" and
    l: "load_fasta ext f = Inr [(name, seq)]" and
    i: "i < 26" and
    r: "check_contigs_loop ext (Suc i) rest (insert name names) = Inr ()"
    by blast
  with Cons.IH[OF r] show ?case by (cases rest) auto
qed

lemma check_input_contigs_ok:
  assumes "check_input_contigs ext filenames = Inr ()"
  shows "2 \<le> length filenames" and "int (length filenames) \<le> MAX_INPUT_CONTIGS ext"
    and "length filenames \<le> 26"
    and "\<forall>f \<in> set filenames. get_sequence_file_type ext f = Inr ''FASTA'' \<and>
                                (\<exists>name seq. load_fasta ext f = Inr [(name, seq)])"
proof -
  from assms have len: "\<not> int (length filenames) < 2"
      and mx: "\<not> int (length filenames) > MAX_INPUT_CONTIGS ext"
      and loop: "check_contigs_loop ext 0 filenames {} = Inr ()"
    by (auto simp: check_input_contigs_def split: if_splits)
  from len show "2 \<le> length filenames" by simp
  from mx show "int (length filenames) \<le> MAX_INPUT_CONTIGS ext" by simp
  from len have "filenames \<noteq> []" by auto
  with check_loop_ok[OF loop] show "length filenames \<le> 26" by simp
  from check_loop_ok[OF loop]
  show "\<forall>f \<in> set filenames. get_sequence_file_type ext f = Inr ''FASTA'' \<and>
                               (\<exists>name seq. load_fasta ext f = Inr [(name, seq)])"
    by simp
qed

subsection \<open>Loading\<close>

lemma length_labelled: "length (labelled ext i fs) = length fs"
  by (induction fs arbitrary: i) auto

lemma nth_labelled:
  "k < length fs \<Longrightarrow>
   labelled ext i fs ! k
     = ([ascii_uppercase ! (i + k)], snd (hd (projr (load_fasta ext (fs ! k)))))"
proof (induction fs arbitrary: i k)
  case Nil
  then show ?case by simp
next
  case (Cons f rest)
  then show ?case by (cases k) auto
qed

lemma load_loop_ok:
  "fs \<noteq> [] \<longrightarrow> i + length fs \<le> 26 \<Longrightarrow>
   \<forall>f \<in> set fs. \<exists>name seq. load_fasta ext f = Inr [(name, seq)] \<Longrightarrow>
   fst ` set acc \<subseteq> (\<lambda>j. [ascii_uppercase ! j]) ` {..<i} \<Longrightarrow>
   load_contigs_loop ext i fs acc = Inr (acc @ labelled ext i fs)"
proof (induction fs arbitrary: i acc)
  case Nil
  then show ?case by simp
next
  case (Cons f rest)
  from Cons.prems(2) obtain name seq where l: "load_fasta ext f = Inr [(name, seq)]"
    by auto
  have i: "i < 26" using Cons.prems(1) by simp
  have fresh: "[ascii_uppercase ! i] \<notin> fst ` set acc"
  proof
    assume "[ascii_uppercase ! i] \<in> fst ` set acc"
    with Cons.prems(3) obtain j where "j < i" "ascii_uppercase ! i = ascii_uppercase ! j"
      by auto
    with i letter_inj[of i j] show False by simp
  qed
  have acc': "fst ` set (acc @ [([ascii_uppercase ! i], seq)])
                \<subseteq> (\<lambda>j. [ascii_uppercase ! j]) ` {..<Suc i}"
    using Cons.prems(3) by (auto simp: lessThan_Suc)
  have "load_contigs_loop ext (Suc i) rest (acc @ [([ascii_uppercase ! i], seq)])
        = Inr ((acc @ [([ascii_uppercase ! i], seq)]) @ labelled ext (Suc i) rest)"
    using Cons.prems(1,2) by (intro Cons.IH[OF _ _ acc']) auto
  then show ?case
    using l i fresh by (simp add: upper_at_Inr[THEN iffD2] update_fresh)
qed

lemma load_validated:
  assumes "check_input_contigs ext filenames = Inr ()"
  shows "load_contig_sequences ext filenames = Inr (labelled ext 0 filenames)"
  using check_input_contigs_ok(3,4)[OF assms]
  by (simp add: load_contig_sequences_def load_loop_ok)

lemmas example_simps =
  example_ext_def check_input_contigs_def check_input_reads_def ascii_uppercase_at_def
  ascii_uppercase_def load_contig_sequences_def str_int_def

text \<open>
  C6. For a list of files that \<open>check_input_contigs\<close> has accepted,
  \<open>load_contig_sequences\<close> returns a contig set with one entry per file, in the order of
  the files, and entry \<open>i\<close> is the letter \<open>string.ascii_uppercase[i]\<close> with the sequence
  of the single record of file \<open>i\<close>.
\<close>

theorem load_contig_sequences_labels:
  assumes "check_input_contigs ext filenames = Inr ()"
  shows "\<exists>contig_seqs.
           load_contig_sequences ext filenames = Inr contig_seqs \<and>
           length contig_seqs = length filenames \<and>
           (\<forall>i < length filenames.
              ascii_uppercase_at i = Inr [ascii_uppercase ! i] \<and>
              (\<exists>name seq. load_fasta ext (filenames ! i) = Inr [(name, seq)] \<and>
                           contig_seqs ! i = ([ascii_uppercase ! i], seq)))"
proof -
  have "\<forall>i < length filenames.
          ascii_uppercase_at i = Inr [ascii_uppercase ! i] \<and>
          (\<exists>name seq. load_fasta ext (filenames ! i) = Inr [(name, seq)] \<and>
                       labelled ext 0 filenames ! i = ([ascii_uppercase ! i], seq))"
  proof (intro allI impI)
    fix i assume i: "i < length filenames"
    with check_input_contigs_ok(3)[OF assms] have "i < 26" by simp
    then have letter: "ascii_uppercase_at i = Inr [ascii_uppercase ! i]"
      by (simp add: upper_at_Inr)
    from i check_input_contigs_ok(4)[OF assms] obtain name seq
      where l: "load_fasta ext (filenames ! i) = Inr [(name, seq)]"
      by (meson nth_mem)
    with i have "labelled ext 0 filenames ! i = ([ascii_uppercase ! i], seq)"
      by (simp add: nth_labelled)
    with letter l
    show "ascii_uppercase_at i = Inr [ascii_uppercase ! i] \<and>
          (\<exists>name seq. load_fasta ext (filenames ! i) = Inr [(name, seq)] \<and>
                       labelled ext 0 filenames ! i = ([ascii_uppercase ! i], seq))"
      by blast
  qed
  with load_validated[OF assms] length_labelled[of ext 0 filenames]
  show ?thesis by blast
qed

theorem load_contig_sequences_labels_witness:
  "check_input_contigs example_ext [''a.fasta'', ''b.fasta''] = Inr () \<and>
   load_contig_sequences example_ext [''a.fasta'', ''b.fasta'']
     = Inr [(''A'', ''ACGT''), (''B'', ''CGTA'')]"
  using load_contig_sequences_labels [of example_ext "[''a.fasta'', ''b.fasta'']"]
  by (simp add: example_simps)

text \<open>
  C9. After \<open>check_input_contigs\<close> has accepted the list (and with the same files, that
  is the same \<open>load_fasta\<close>), every file loads to exactly one record, so the assertion
  \<open>len(seqs) == 1\<close> holds in every iteration and \<open>load_contig_sequences\<close> raises nothing.
\<close>

theorem load_assertion_never_fails:
  assumes "check_input_contigs ext filenames = Inr ()"
  shows "(\<forall>f \<in> set filenames. \<exists>seqs. load_fasta ext f = Inr seqs \<and> length seqs = 1) \<and>
         load_contig_sequences ext filenames \<noteq> Inl (Uncaught AssertionError) \<and>
         (\<exists>contig_seqs. load_contig_sequences ext filenames = Inr contig_seqs)"
proof -
  have "\<forall>f \<in> set filenames. \<exists>seqs. load_fasta ext f = Inr seqs \<and> length seqs = 1"
    using check_input_contigs_ok(4)[OF assms] by fastforce
  then show ?thesis
    by (simp add: load_validated[OF assms])
qed

theorem load_assertion_never_fails_witness:
  "check_input_contigs example_ext [''a.fasta'', ''b.fasta''] = Inr () \<and>
   load_fasta example_ext ''a.fasta'' = Inr [(''contig_1'', ''ACGT'')] \<and>
   load_contig_sequences example_ext [''a.fasta'', ''b.fasta'']
     \<noteq> Inl (Uncaught AssertionError)"
  using load_assertion_never_fails [of example_ext "[''a.fasta'', ''b.fasta'']"]
  by (simp add: example_simps)

subsection \<open>The run: validation, and the log\<close>

lemma checks_result:
  "check_inputs_and_requirements ext args w =
     (case check_input_reads ext (reads args) of
        Inl e \<Rightarrow> (Inl e, w)
      | Inr u \<Rightarrow>
          (case check_input_contigs ext (contigs args) of
             Inl e \<Rightarrow> (Inl e, w)
           | Inr u \<Rightarrow>
               (case check_output_directory (out_dir args) (files w) of
                  Inl e \<Rightarrow> (Inl e, w)
                | Inr fs' \<Rightarrow> (Inr (), w\<lparr>files := fs'\<rparr>))))"
  by (simp add: check_inputs_and_requirements_def and_then_def reading_def on_files_def
        check_required_software_def split: sum.splits)

lemma new_events_eq: "new_events ext args w = run_events ext args w"
  by (simp add: new_events_def run_events_def output_events_def seeded_def main_def and_then_def
        seed_random_def checks_result reading_def call_stage_def save_seqs_def
        split: sum.splits prod.splits)

lemma main_appends: "trace (snd (main ext args w)) = trace w @ new_events ext args w"
  by (simp add: new_events_def main_def and_then_def
        seed_random_def checks_result reading_def call_stage_def save_seqs_def
        split: sum.splits prod.splits)

lemma main_checks_fail:
  assumes "check_inputs_and_requirements ext args (seeded ext w) = (Inl e, w')"
  shows "main ext args w = (Inl e, w')"
  using assms by (simp add: main_def and_then_def seed_random_def seeded_def)

lemma main_contigs_rejected:
  assumes "check_input_contigs ext (contigs args) = Inl e"
  shows "\<exists>e'. main ext args w = (Inl e', seeded ext w) \<and>
              (check_input_reads ext (reads args) = Inr () \<longrightarrow> e' = e) \<and>
              (\<forall>e''. check_input_reads ext (reads args) = Inl e'' \<longrightarrow> e' = e'')"
proof (cases "check_input_reads ext (reads args)")
  case (Inl e'')
  then have "check_inputs_and_requirements ext args (seeded ext w) = (Inl e'', seeded ext w)"
    by (simp add: checks_result)
  from main_checks_fail[OF this] Inl show ?thesis by simp
next
  case (Inr u)
  with assms have "check_inputs_and_requirements ext args (seeded ext w) = (Inl e, seeded ext w)"
    by (simp add: checks_result)
  from main_checks_fail[OF this] Inr show ?thesis by simp
qed

subsection \<open>Which stages run, and in which order\<close>

lemma seed_first:
  "\<exists>evs. new_events ext args w = RandomSeed 0 # evs \<and> (\<forall>n. RandomSeed n \<notin> set evs)"
  by (simp add: new_events_eq run_events_def output_events_def split: sum.splits prod.splits)

lemma main_rng_irrelevant: "main ext args (w\<lparr>rng := r\<rparr>) = main ext args w"
  by (simp add: main_def and_then_def seed_random_def)

lemma not_circular_skips:
  assumes "not_circular args"
  shows "Called Circularise s \<notin> set (new_events ext args w) \<and>
         Called RotateToStartingSeq s \<notin> set (new_events ext args w)"
  using assms
  by (simp add: new_events_eq run_events_def output_events_def circular_def
        split: sum.splits prod.splits)

lemma get_starting_seq_runs:
  assumes "check_inputs_and_requirements ext args (seeded ext w) = (Inr (), w1)"
    and "load_contig_sequences ext (contigs args) = Inr loaded"
    and "initial_sanity_check ext loaded (random_seed ext 0) = Inr ((), r)"
  shows "Called GetStartingSeq loaded \<in> set (new_events ext args w)"
  using assms
  by (simp add: new_events_eq run_events_def)

lemma output_events_uses:
  "ev \<in> set (output_events ext args fs s1 r) \<Longrightarrow>
   ev = Wrote (out_dir args @ [''01_all_seqs.fasta'']) s1 \<or>
   ev = Called GetPerBaseScores s1 \<or> ev = Called GetPairwiseAlignments s1 \<or>
   ev = Called GetConsensusSeq s1 \<or>
   (\<exists>c. ev = Wrote (out_dir args @ [''02_consensus.fasta'']) c)"
  by (auto simp: output_events_def split: sum.splits prod.splits)

lemma not_circular_passes_on:
  assumes "not_circular args"
    and "Wrote (out_dir args @ [''01_all_seqs.fasta'']) s \<in> set (new_events ext args w) \<or>
         Called GetPerBaseScores s \<in> set (new_events ext args w) \<or>
         Called GetPairwiseAlignments s \<in> set (new_events ext args w) \<or>
         Called GetConsensusSeq s \<in> set (new_events ext args w)"
  shows "\<exists>loaded r st r'.
           load_contig_sequences ext (contigs args) = Inr loaded \<and>
           Called GetStartingSeq loaded \<in> set (new_events ext args w) \<and>
           get_starting_seq ext loaded (threads args) r = Inr ((st, s), r')"
  using assms
  by (auto simp: new_events_eq run_events_def output_events_def circular_def
        split: sum.splits prod.splits) metis+

lemma circular_runs_all_before_output:
  assumes "\<not> not_circular args" and "Wrote p c \<in> set (new_events ext args w)"
  shows "\<exists>s0 s1 s2 post.
           new_events ext args w =
             [RandomSeed 0, Called InitialSanityCheck s0, Called GetStartingSeq s0,
              Called Circularise s1, Called RotateToStartingSeq s2] @ post"
  using assms
  by (auto simp: new_events_eq run_events_def circular_def split: sum.splits prod.splits)

lemmas run_example_simps =
  new_events_eq run_events_def output_events_def seeded_def checks_result
  example_ext_def example_args_def example_world_def example_linear_def
  check_input_reads_def check_input_contigs_def ascii_uppercase_at_def ascii_uppercase_def
  check_output_directory_def is_file_def is_dir_def stat_def mkdir_parents_def ancestors_def
  load_contig_sequences_def save_seqs_to_fasta_def open_wt_def circular_def file_write_def

lemma example_linear_events: "new_events example_ext example_linear example_world =
   [RandomSeed 0,
    Called InitialSanityCheck [(''A'', ''ACGT''), (''B'', ''CGTA'')],
    Called GetStartingSeq [(''A'', ''ACGT''), (''B'', ''CGTA'')],
    Wrote [''out'', ''01_all_seqs.fasta''] [(''A'', ''CGTA''), (''B'', ''GTAC'')],
    Called GetPerBaseScores [(''A'', ''CGTA''), (''B'', ''GTAC'')],
    Called GetPairwiseAlignments [(''A'', ''CGTA''), (''B'', ''GTAC'')],
    Called GetConsensusSeq [(''A'', ''CGTA''), (''B'', ''GTAC'')],
    Wrote [''out'', ''02_consensus.fasta''] [(''consensus'', ''CGTA'')]]"
  by (simp add: run_example_simps)

lemma example_circular_events: "new_events example_ext example_args example_world =
   [RandomSeed 0,
    Called InitialSanityCheck [(''A'', ''ACGT''), (''B'', ''CGTA'')],
    Called GetStartingSeq [(''A'', ''ACGT''), (''B'', ''CGTA'')],
    Called Circularise [(''A'', ''CGTA''), (''B'', ''GTAC'')],
    Called RotateToStartingSeq [(''A'', ''CGT''), (''B'', ''GTA'')],
    Wrote [''out'', ''01_all_seqs.fasta''] [(''A'', ''CGT''), (''B'', ''GTA'')],
    Called GetPerBaseScores [(''A'', ''CGT''), (''B'', ''GTA'')],
    Called GetPairwiseAlignments [(''A'', ''CGT''), (''B'', ''GTA'')],
    Called GetConsensusSeq [(''A'', ''CGT''), (''B'', ''GTA'')],
    Wrote [''out'', ''02_consensus.fasta''] [(''consensus'', ''CGT'')]]"
  by (simp add: run_example_simps)

text \<open>
  C1 (amended). With \<open>--not_circular\<close>, \<open>circularise\<close> and \<open>rotate_to_starting_seq\<close> are
  never called, and whatever contig set is saved to \<open>01_all_seqs.fasta\<close> or passed to the
  scorer, the pairwise aligner and the consensus builder is the one that
  \<open>get_starting_seq\<close> returned for the loaded set. Without the flag, any output is
  written only after \<open>get_starting_seq\<close>, \<open>circularise\<close> and \<open>rotate_to_starting_seq\<close>
  have run, in this order. Under either flag \<open>get_starting_seq\<close> is called on the loaded
  set as soon as validation, loading and the initial sanity check have passed.
\<close>

theorem normalizer_runs_by_flag:
  "(not_circular args \<longrightarrow>
      (\<forall>s. Called Circularise s \<notin> set (new_events ext args w) \<and>
           Called RotateToStartingSeq s \<notin> set (new_events ext args w)) \<and>
      (\<forall>s. Wrote (out_dir args @ [''01_all_seqs.fasta'']) s \<in> set (new_events ext args w) \<or>
           Called GetPerBaseScores s \<in> set (new_events ext args w) \<or>
           Called GetPairwiseAlignments s \<in> set (new_events ext args w) \<or>
           Called GetConsensusSeq s \<in> set (new_events ext args w) \<longrightarrow>
           (\<exists>loaded r st r'.
              load_contig_sequences ext (contigs args) = Inr loaded \<and>
              Called GetStartingSeq loaded \<in> set (new_events ext args w) \<and>
              get_starting_seq ext loaded (threads args) r = Inr ((st, s), r')))) \<and>
   (\<not> not_circular args \<longrightarrow>
      (\<forall>p c. Wrote p c \<in> set (new_events ext args w) \<longrightarrow>
         (\<exists>s0 s1 s2 post.
            new_events ext args w =
              [RandomSeed 0, Called InitialSanityCheck s0, Called GetStartingSeq s0,
               Called Circularise s1, Called RotateToStartingSeq s2] @ post))) \<and>
   (\<forall>w1 loaded r.
      check_inputs_and_requirements ext args (seeded ext w) = (Inr (), w1) \<and>
      load_contig_sequences ext (contigs args) = Inr loaded \<and>
      initial_sanity_check ext loaded (random_seed ext 0) = Inr ((), r) \<longrightarrow>
      Called GetStartingSeq loaded \<in> set (new_events ext args w))"
  using not_circular_skips[of args _ ext w] not_circular_passes_on[of args _ ext w]
    circular_runs_all_before_output[of args _ _ ext w] get_starting_seq_runs[of ext args w]
  by blast

theorem normalizer_runs_by_flag_witness:
  "not_circular example_linear \<and>
   Called Circularise [(''A'', ''CGTA''), (''B'', ''GTAC'')]
     \<notin> set (new_events example_ext example_linear example_world) \<and>
   Called GetPerBaseScores [(''A'', ''CGTA''), (''B'', ''GTAC'')]
     \<in> set (new_events example_ext example_linear example_world) \<and>
   get_starting_seq example_ext [(''A'', ''ACGT''), (''B'', ''CGTA'')] 4 0
     = Inr ((''A'', [(''A'', ''CGTA''), (''B'', ''GTAC'')]), 1) \<and>
   \<not> not_circular example_args \<and>
   Wrote [''out'', ''01_all_seqs.fasta''] [(''A'', ''CGT''), (''B'', ''GTA'')]
     \<in> set (new_events example_ext example_args example_world) \<and>
   take 5 (new_events example_ext example_args example_world) =
     [RandomSeed 0,
      Called InitialSanityCheck [(''A'', ''ACGT''), (''B'', ''CGTA'')],
      Called GetStartingSeq [(''A'', ''ACGT''), (''B'', ''CGTA'')],
      Called Circularise [(''A'', ''CGTA''), (''B'', ''GTAC'')],
      Called RotateToStartingSeq [(''A'', ''CGT''), (''B'', ''GTA'')]]"
  using normalizer_runs_by_flag [of example_linear example_ext example_world]
    normalizer_runs_by_flag [of example_args example_ext example_world]
  by (simp add: example_linear_events example_circular_events)
     (simp add: example_linear_def example_args_def example_ext_def)

text \<open>
  The claim as first stated has the whole normalizer skipped under \<open>--not_circular\<close> and
  the loaded contig set reach the scorer unchanged. In this run with the flag,
  \<open>get_starting_seq\<close> is called on the loaded set, and the scorer and the aligner get
  the set it returned, which differs from the loaded one.
\<close>

theorem normalizer_skipped_counterexample:
  "not_circular example_linear \<and>
   load_contig_sequences example_ext (contigs example_linear)
     = Inr [(''A'', ''ACGT''), (''B'', ''CGTA'')] \<and>
   Called GetStartingSeq [(''A'', ''ACGT''), (''B'', ''CGTA'')]
     \<in> set (new_events example_ext example_linear example_world) \<and>
   Called GetPerBaseScores [(''A'', ''CGTA''), (''B'', ''GTAC'')]
     \<in> set (new_events example_ext example_linear example_world) \<and>
   Called GetPairwiseAlignments [(''A'', ''CGTA''), (''B'', ''GTAC'')]
     \<in> set (new_events example_ext example_linear example_world)"
  by (simp add: example_linear_events)
     (simp add: example_linear_def example_args_def example_simps)

text \<open>
  C8. A run does not depend on the state the random generator starts in: \<open>main\<close> first
  calls \<open>random.seed(0)\<close>, before validation and before every stage, and calls it only
  once, so the result, the files and the log are a function of the arguments, the
  input files and the file system alone.
\<close>

theorem main_seeds_once_first:
  "main ext args (w\<lparr>rng := r\<rparr>) = main ext args w \<and>
   (\<exists>evs. new_events ext args w = RandomSeed 0 # evs \<and> (\<forall>n. RandomSeed n \<notin> set evs))"
  using main_rng_irrelevant[of ext args r w] seed_first[of ext args w]
  by blast

theorem main_seeds_once_first_witness:
  "main example_ext example_args (example_world\<lparr>rng := 99\<rparr>)
     = main example_ext example_args example_world \<and>
   hd (new_events example_ext example_args example_world) = RandomSeed 0 \<and>
   RandomSeed 0 \<notin> set (tl (new_events example_ext example_args example_world))"
  using main_seeds_once_first [of example_ext example_args 99 example_world]
  by (simp add: example_circular_events)

subsection \<open>Saving\<close>


lemma write_records_content:
  "fs p = Some (RegularFile c) \<Longrightarrow>
   write_records p seqs fs = fs(p \<mapsto> RegularFile (c @ fasta_text seqs))"
proof (induction seqs arbitrary: fs c)
  case Nil
  then show ?case by (auto simp: fasta_text_def)
next
  case (Cons r rest)
  obtain name seq where r: "r = (name, seq)" by (cases r)
  define c' where "c' = c @ ''>'' @ name @ [newline] @ seq @ [newline]"
  have step: "file_write p (seq @ [newline]) (file_write p (''>'' @ name @ [newline]) fs)
                = fs(p \<mapsto> RegularFile c')"
    using Cons.prems by (simp add: file_write_def c'_def)
  have "write_records p rest (fs(p \<mapsto> RegularFile c'))
          = (fs(p \<mapsto> RegularFile c'))(p \<mapsto> RegularFile (c' @ fasta_text rest))"
    by (rule Cons.IH) simp
  moreover have "c' @ fasta_text rest = c @ fasta_text (r # rest)"
    by (simp add: c'_def r fasta_text_def)
  ultimately have "write_records p rest (fs(p \<mapsto> RegularFile c'))
                     = fs(p \<mapsto> RegularFile (c @ fasta_text (r # rest)))"
    by simp
  then show ?case
    unfolding r write_records.simps step .
qed

lemma lines_from_line:
  "newline \<notin> set l \<Longrightarrow> lines_from cur (l @ newline # rest) = (cur @ l) # lines_from [] rest"
  by (induction l arbitrary: cur) auto

lemma text_lines_fasta:
  "\<forall>(name, seq) \<in> set seqs. newline \<notin> set name \<and> newline \<notin> set seq \<Longrightarrow>
   text_lines (fasta_text seqs) = concat (map (\<lambda>(name, seq). [''>'' @ name, seq]) seqs)"
proof (induction seqs)
  case Nil
  then show ?case by (simp add: text_lines_def fasta_text_def)
next
  case (Cons r rest)
  obtain name seq where r: "r = (name, seq)" by (cases r)
  with Cons.prems have n: "newline \<notin> set (''>'' @ name)" and s: "newline \<notin> set seq"
    by (auto simp: newline_def)
  have "fasta_text (r # rest) = (''>'' @ name) @ newline # (seq @ newline # fasta_text rest)"
    using r by (simp add: fasta_text_def)
  then have "text_lines (fasta_text (r # rest)) = (''>'' @ name) # seq # text_lines (fasta_text rest)"
    unfolding text_lines_def using lines_from_line[OF n, of "[]"] lines_from_line[OF s, of "[]"]
    by simp
  with Cons r show ?case by simp
qed

text \<open>
  C7. When the file can be opened (its directory exists and the path is not itself a
  directory), \<open>save_seqs_to_fasta\<close> leaves in it exactly the text \<open>fasta_text seqs\<close>: for
  each item of the dict, in the dict's order, \<open>>\<close> and the name and a newline, then the
  whole sequence and a newline; no other path changes. For names and sequences that
  contain no newline these are exactly two lines for each item, the header and the
  sequence unwrapped.
\<close>

theorem save_seqs_to_fasta_text:
  assumes "is_dir fs (butlast filename)" and "\<not> is_dir fs filename"
  shows "\<exists>fs'. save_seqs_to_fasta seqs filename fs = Inr fs' \<and>
           fs' filename = Some (RegularFile (fasta_text seqs)) \<and>
           (\<forall>q. q \<noteq> filename \<longrightarrow> fs' q = fs q) \<and>
           ((\<forall>(name, seq) \<in> set seqs. newline \<notin> set name \<and> newline \<notin> set seq) \<longrightarrow>
              text_lines (fasta_text seqs)
                = concat (map (\<lambda>(name, seq). [''>'' @ name, seq]) seqs))"
proof -
  from assms have "open_wt fs filename = Inr (fs(filename \<mapsto> RegularFile []))"
    by (auto simp: open_wt_def is_dir_def is_file_def split: option.splits node.splits)
  then have "save_seqs_to_fasta seqs filename fs
               = Inr (fs(filename \<mapsto> RegularFile (fasta_text seqs)))"
    using write_records_content[of "fs(filename \<mapsto> RegularFile [])" filename "[]" seqs]
    by (simp add: save_seqs_to_fasta_def)
  then show ?thesis
    using text_lines_fasta[of seqs] by auto
qed


theorem save_seqs_to_fasta_text_witness:
  "is_dir Map.empty (butlast [''01_all_seqs.fasta'']) \<and>
   \<not> is_dir Map.empty [''01_all_seqs.fasta''] \<and>
   (\<exists>fs'. save_seqs_to_fasta [(''A'', ''ACGT''), (''B'', ''CG'')] [''01_all_seqs.fasta''] Map.empty = Inr fs' \<and>
      fs' [''01_all_seqs.fasta''] = Some (RegularFile (''>A'' @ [newline] @ ''ACGT'' @ [newline] @ ''>B'' @ [newline] @ ''CG'' @ [newline]))) \<and>
    text_lines (fasta_text [(''A'', ''ACGT''), (''B'', ''CG'')]) = [''>A'', ''ACGT'', ''>B'', ''CG'']"
  using save_seqs_to_fasta_text [of Map.empty "[''01_all_seqs.fasta'']" "[(''A'', ''ACGT''), (''B'', ''CG'')]"]
  by (simp add: is_dir_def stat_def fasta_text_def newline_def) blast

subsection \<open>The output directory\<close>


lemma is_file_not_dir: "is_file fs p \<Longrightarrow> \<not> is_dir fs p"
  by (auto simp: is_file_def is_dir_def split: option.splits node.splits)

lemma absent_neither: "stat fs p = None \<Longrightarrow> \<not> is_file fs p \<and> \<not> is_dir fs p"
  by (simp add: is_file_def is_dir_def)

lemma make_parents_no_exit: "make_parents fs qs \<noteq> Inl (SysExit msg)"
  by (induction qs arbitrary: fs) (auto split: option.splits node.splits)

lemma mkdir_parents_no_exit: "mkdir_parents fs p \<noteq> Inl (SysExit msg)"
  using make_parents_no_exit[of fs "ancestors p" msg]
  by (auto simp: mkdir_parents_def split: sum.splits)

lemma make_parents_ok:
  "\<forall>q \<in> set qs. stat fs q = None \<or> is_dir fs q \<Longrightarrow>
   \<exists>fs'. make_parents fs qs = Inr fs' \<and>
         (\<forall>q \<in> set qs. is_dir fs' q) \<and>
         (\<forall>q. q \<notin> set qs \<longrightarrow> fs' q = fs q) \<and>
         (\<forall>q. stat fs q \<noteq> None \<longrightarrow> fs' q = fs q)"
proof (induction qs arbitrary: fs)
  case Nil
  then show ?case by simp
next
  case (Cons q qs)
  show ?case
  proof (cases "stat fs q")
    case None
    let ?fs = "fs(q \<mapsto> Directory)"
    have "\<forall>q' \<in> set qs. stat ?fs q' = None \<or> is_dir ?fs q'"
      using Cons.prems by (auto simp: is_dir_def stat_def split: if_splits)
    from Cons.IH[OF this] obtain fs' where
      m: "make_parents ?fs qs = Inr fs'" and d: "\<forall>q' \<in> set qs. is_dir fs' q'" and
      o: "\<forall>q'. q' \<notin> set qs \<longrightarrow> fs' q' = ?fs q'" and
      k: "\<forall>q'. stat ?fs q' \<noteq> None \<longrightarrow> fs' q' = ?fs q'"
      by blast
    have q: "q \<noteq> []" using None by (auto simp: stat_def split: if_splits)
    have "fs' q = Some Directory" using k q by (simp add: stat_def)
    then have "is_dir fs' q" by (simp add: is_dir_def stat_def)
    moreover have "\<forall>q'. stat fs q' \<noteq> None \<longrightarrow> fs' q' = fs q'"
    proof (intro allI impI)
      fix q' assume e: "stat fs q' \<noteq> None"
      with None have "q' \<noteq> q" by auto
      moreover from e this have "stat ?fs q' \<noteq> None"
        by (auto simp: stat_def split: if_splits)
      ultimately show "fs' q' = fs q'" using k by simp
    qed
    ultimately show ?thesis using None m d o by auto
  next
    case (Some n)
    with Cons.prems have n: "n = Directory"
      by (cases n) (auto simp: is_dir_def)
    from Cons.prems have "\<forall>q' \<in> set qs. stat fs q' = None \<or> is_dir fs q'" by simp
    from Cons.IH[OF this] obtain fs' where
      m: "make_parents fs qs = Inr fs'" and d: "\<forall>q' \<in> set qs. is_dir fs' q'" and
      o: "\<forall>q'. q' \<notin> set qs \<longrightarrow> fs' q' = fs q'" and
      k: "\<forall>q'. stat fs q' \<noteq> None \<longrightarrow> fs' q' = fs q'"
      by blast
    have "fs' q = fs q" using k Some by simp
    then have "is_dir fs' q" using Some n by (auto simp: is_dir_def stat_def split: if_splits)
    then show ?thesis using Some n m d o k by auto
  qed
qed

lemma make_parents_blocked:
  "\<forall>x \<in> set pre. stat fs x = None \<or> is_dir fs x \<Longrightarrow>
   stat fs q \<noteq> None \<Longrightarrow> \<not> is_dir fs q \<Longrightarrow>
   make_parents fs (pre @ q # rest)
     = Inl (Uncaught (if stat fs q = Some DanglingLink then FileExistsError
                      else NotADirectoryError))"
proof (induction pre arbitrary: fs)
  case Nil
  then show ?case
    by (auto simp: is_dir_def split: option.splits node.splits)
next
  case (Cons x pre)
  show ?case
  proof (cases "stat fs x")
    case None
    let ?fs = "fs(x \<mapsto> Directory)"
    from None Cons.prems(2) have ne: "q \<noteq> x" by auto
    from None have x: "x \<noteq> []" by (auto simp: stat_def split: if_splits)
    from ne have sq: "stat ?fs q = stat fs q" by (simp add: stat_def)
    have 1: "\<forall>y \<in> set pre. stat ?fs y = None \<or> is_dir ?fs y"
      using Cons.prems(1) by (auto simp: is_dir_def stat_def split: if_splits)
    have 2: "stat ?fs q \<noteq> None" using Cons.prems(2) sq by simp
    have 3: "\<not> is_dir ?fs q" using Cons.prems(3) sq by (simp add: is_dir_def)
    have "make_parents fs ((x # pre) @ q # rest) = make_parents ?fs (pre @ q # rest)"
      using None by simp
    also note Cons.IH[OF 1 2 3]
    finally show ?thesis unfolding sq .
  next
    case (Some n)
    with Cons.prems(1) have n: "n = Directory"
      by (cases n) (auto simp: is_dir_def)
    from Cons.prems(1) have 1: "\<forall>y \<in> set pre. stat fs y = None \<or> is_dir fs y" by simp
    from Cons.IH[OF 1 Cons.prems(2,3)] Some n show ?thesis by simp
  qed
qed

lemma ancestors_not_self: "p \<notin> set (ancestors p)"
proof -
  have e: "butlast (prefixes p) @ [p] = prefixes p"
    using append_butlast_last_id[of "prefixes p"] by simp
  have "distinct (butlast (prefixes p) @ [p])"
    unfolding e by (rule distinct_prefixes)
  then have "p \<notin> set (butlast (prefixes p))" by simp
  moreover have "set (ancestors p) \<subseteq> set (butlast (prefixes p))"
    unfolding ancestors_def butlast_tl
    by (cases "butlast (prefixes p)") auto
  ultimately show ?thesis by blast
qed

lemma check_output_directory_file:
  "(\<exists>msg. check_output_directory directory fs = Inl (SysExit msg)) \<longleftrightarrow> is_file fs directory"
  using mkdir_parents_no_exit[of fs directory]
  by (auto simp: check_output_directory_def)

lemma check_output_directory_dir:
  "is_dir fs directory \<Longrightarrow> check_output_directory directory fs = Inr fs"
  by (auto simp: check_output_directory_def dest: is_file_not_dir)

lemma check_output_directory_new:
  assumes none: "stat fs directory = None"
    and anc: "\<forall>q \<in> set (ancestors directory). stat fs q = None \<or> is_dir fs q"
  shows "\<exists>fs'. check_output_directory directory fs = Inr fs' \<and>
             is_dir fs' directory \<and>
             (\<forall>q \<in> set (ancestors directory). is_dir fs' q) \<and>
             (\<forall>q. stat fs q \<noteq> None \<longrightarrow> fs' q = fs q) \<and>
             (\<forall>q. q \<noteq> directory \<and> q \<notin> set (ancestors directory) \<longrightarrow> fs' q = fs q)"
proof -
  from none have ne: "directory \<noteq> []" by (auto simp: stat_def split: if_splits)
  from make_parents_ok[OF anc] obtain fs1 where
    m: "make_parents fs (ancestors directory) = Inr fs1" and
    d: "\<forall>q \<in> set (ancestors directory). is_dir fs1 q" and
    o: "\<forall>q. q \<notin> set (ancestors directory) \<longrightarrow> fs1 q = fs q" and
    k: "\<forall>q. stat fs q \<noteq> None \<longrightarrow> fs1 q = fs q"
    by blast
  let ?fs' = "fs1(directory \<mapsto> Directory)"
  have r: "check_output_directory directory fs = Inr ?fs'"
    using absent_neither[OF none] none m
    by (simp add: check_output_directory_def mkdir_parents_def)
  have 1: "is_dir ?fs' directory" by (simp add: is_dir_def stat_def)
  have 2: "\<forall>q \<in> set (ancestors directory). is_dir ?fs' q"
    using d ancestors_not_self[of directory] by (auto simp: is_dir_def stat_def)
  have 3: "\<forall>q. stat fs q \<noteq> None \<longrightarrow> ?fs' q = fs q"
  proof (intro allI impI)
    fix q assume e: "stat fs q \<noteq> None"
    with none have "q \<noteq> directory" by auto
    with k e show "?fs' q = fs q" by simp
  qed
  have 4: "\<forall>q. q \<noteq> directory \<and> q \<notin> set (ancestors directory) \<longrightarrow> ?fs' q = fs q"
    using o by simp
  from r 1 2 3 4 show ?thesis by blast
qed

lemma check_output_directory_blocked:
  assumes none: "stat fs directory = None"
    and anc: "ancestors directory = pre @ q # rest"
    and pre: "\<forall>x \<in> set pre. stat fs x = None \<or> is_dir fs x"
    and q: "stat fs q \<noteq> None" "\<not> is_dir fs q"
  shows "check_output_directory directory fs
           = Inl (Uncaught (if stat fs q = Some DanglingLink then FileExistsError
                            else NotADirectoryError))"
  using absent_neither[OF none] none make_parents_blocked[OF pre q, of rest]
  by (simp add: check_output_directory_def mkdir_parents_def anc)

lemma check_output_directory_taken:
  assumes "\<not> is_file fs directory" "\<not> is_dir fs directory" "stat fs directory \<noteq> None"
  shows "check_output_directory directory fs = Inl (Uncaught FileExistsError)"
  using assms by (simp add: check_output_directory_def mkdir_parents_def)

lemmas example_nodes_simps =
  example_nodes_def example_files_def check_output_directory_def is_file_def is_dir_def
  stat_def ancestors_def mkdir_parents_def

text \<open>
  C4 (amended). \<open>check_output_directory\<close> ends in \<open>sys.exit\<close> if and only if the path
  is a regular file. An existing directory is accepted and nothing changes. When the
  path names nothing and each of its ancestors is missing or a directory, the directory
  and its missing ancestors are created, and nothing that existed changes. In every
  other case \<open>mkdir\<close> raises and nobody catches it: when the path names nothing and the
  outermost ancestor that exists without being a directory is a regular file, a FIFO or
  a device, NotADirectoryError; when that ancestor is a dangling link, FileExistsError;
  when the path itself exists but is neither a regular file nor a directory (a FIFO, a
  device, a dangling link), FileExistsError.
\<close>

theorem check_output_directory_cases:
  "((\<exists>msg. check_output_directory directory fs = Inl (SysExit msg)) \<longleftrightarrow> is_file fs directory) \<and>
   (is_dir fs directory \<longrightarrow> check_output_directory directory fs = Inr fs) \<and>
   (stat fs directory = None \<and>
    (\<forall>q \<in> set (ancestors directory). stat fs q = None \<or> is_dir fs q) \<longrightarrow>
      (\<exists>fs'. check_output_directory directory fs = Inr fs' \<and>
             is_dir fs' directory \<and>
             (\<forall>q \<in> set (ancestors directory). is_dir fs' q) \<and>
             (\<forall>q. stat fs q \<noteq> None \<longrightarrow> fs' q = fs q) \<and>
             (\<forall>q. q \<noteq> directory \<and> q \<notin> set (ancestors directory) \<longrightarrow> fs' q = fs q))) \<and>
   (stat fs directory = None \<and> ancestors directory = pre @ q # rest \<and>
    (\<forall>x \<in> set pre. stat fs x = None \<or> is_dir fs x) \<and>
    stat fs q \<noteq> None \<and> \<not> is_dir fs q \<longrightarrow>
      check_output_directory directory fs
        = Inl (Uncaught (if stat fs q = Some DanglingLink then FileExistsError
                         else NotADirectoryError))) \<and>
   (\<not> is_file fs directory \<and> \<not> is_dir fs directory \<and> stat fs directory \<noteq> None \<longrightarrow>
      check_output_directory directory fs = Inl (Uncaught FileExistsError))"
  using check_output_directory_file[of directory fs] check_output_directory_dir[of fs directory]
    check_output_directory_new[of fs directory]
    check_output_directory_blocked[of fs directory pre q rest]
    check_output_directory_taken[of fs directory]
  by blast

theorem check_output_directory_cases_witness:
  "is_file example_nodes [''notes''] \<and>
   check_output_directory [''notes''] example_nodes
     = Inl (SysExit ''Error: output directory (notes) already exists as a file'') \<and>
   is_dir example_nodes [''results''] \<and>
   check_output_directory [''results''] example_nodes = Inr example_nodes \<and>
   stat example_nodes [''results'', ''run1'', ''out''] = None \<and>
   (\<exists>fs'. check_output_directory [''results'', ''run1'', ''out''] example_nodes = Inr fs' \<and>
          is_dir fs' [''results'', ''run1'', ''out''] \<and> is_dir fs' [''results'', ''run1''] \<and>
          fs' [''notes''] = Some (RegularFile ''x'') \<and> fs' [''pipe''] = Some Special \<and>
          fs' [''lost''] = Some DanglingLink) \<and>
   stat example_nodes [''pipe'', ''run1'', ''out''] = None \<and>
   stat example_nodes [''pipe''] = Some Special \<and>
   check_output_directory [''pipe'', ''run1'', ''out''] example_nodes
     = Inl (Uncaught NotADirectoryError) \<and>
   stat example_nodes [''lost'', ''out''] = None \<and>
   stat example_nodes [''lost''] = Some DanglingLink \<and>
   check_output_directory [''lost'', ''out''] example_nodes = Inl (Uncaught FileExistsError) \<and>
   \<not> is_file example_nodes [''pipe''] \<and> \<not> is_dir example_nodes [''pipe''] \<and>
   check_output_directory [''pipe''] example_nodes = Inl (Uncaught FileExistsError) \<and>
   \<not> is_file example_nodes [''lost''] \<and> \<not> is_dir example_nodes [''lost''] \<and>
   check_output_directory [''lost''] example_nodes = Inl (Uncaught FileExistsError)"
  using check_output_directory_cases [of "[''notes'']" example_nodes]
    check_output_directory_cases [of "[''results'']" example_nodes]
    check_output_directory_cases [of "[''results'', ''run1'', ''out'']" example_nodes]
    check_output_directory_cases
      [of "[''pipe'', ''run1'', ''out'']" example_nodes "[]" "[''pipe'']" "[[''pipe'', ''run1'']]"]
    check_output_directory_cases [of "[''lost'', ''out'']" example_nodes "[]" "[''lost'']" "[]"]
    check_output_directory_cases [of "[''pipe'']" example_nodes]
    check_output_directory_cases [of "[''lost'']" example_nodes]
  by (simp add: example_nodes_simps)

text \<open>
  The claim as first stated promises the directory whenever the path does not exist.
  Below a regular file \<open>a\<close>, the path \<open>a/b\<close> does not exist, is neither a file nor a
  directory, and \<open>mkdir\<close> raises NotADirectoryError: nothing is created, and the run
  aborts although the path is not a regular file.
\<close>

theorem check_output_directory_counterexample:
  "\<not> is_file (Map.empty([''a''] \<mapsto> RegularFile ''x'')) [''a'', ''b''] \<and>
   \<not> is_dir (Map.empty([''a''] \<mapsto> RegularFile ''x'')) [''a'', ''b''] \<and>
   check_output_directory [''a'', ''b''] (Map.empty([''a''] \<mapsto> RegularFile ''x''))
     = Inl (Uncaught NotADirectoryError)"
  by (simp add: check_output_directory_def is_file_def is_dir_def stat_def
        ancestors_def mkdir_parents_def)

end
